theory Spec2Isabelle
  imports Main "HOL-Library.Word"
begin

unbundle bit_operations_syntax

section \<open>Bytes, buffers and C integer arithmetic\<close>

text \<open>
  The C sources (\<^verbatim>\<open>pdp-keys.c\<close>) work on \<^verbatim>\<open>unsigned char\<close> buffers. A buffer is a
  list of bytes; a pointer that may be \<^verbatim>\<open>NULL\<close> is an \<open>option\<close>. Sizes are natural
  numbers, and the places where the C code computes in \<^verbatim>\<open>unsigned int\<close> are reduced
  modulo \<open>2 ^ 32\<close> by \<open>u32\<close>. Allocation (\<^verbatim>\<open>malloc\<close>) is taken to succeed unless a
  model says otherwise.
\<close>

type_synonym byte = "8 word"
type_synonym bytes = "byte list"

definition u32 :: "nat \<Rightarrow> nat" where
  "u32 x = x mod 2 ^ 32"

text \<open>\<^verbatim>\<open>memcpy(dst + off, src, len)\<close>: the bytes of \<open>dst\<close> from \<open>off\<close> on are replaced by
  the first \<open>len\<close> bytes of \<open>src\<close>.\<close>

definition memcpy :: "bytes \<Rightarrow> nat \<Rightarrow> bytes \<Rightarrow> nat \<Rightarrow> bytes" where
  "memcpy dst off src len = take off dst @ take len src @ drop (off + len) dst"

text \<open>\<^verbatim>\<open>memset(buf, c, len)\<close> on a fresh buffer of \<open>len\<close> bytes.\<close>

definition memset :: "byte \<Rightarrow> nat \<Rightarrow> bytes" where
  "memset c len = replicate len c"

section \<open>The AES primitive of the cryptographic library\<close>

text \<open>
  \<^verbatim>\<open>AES_set_encrypt_key\<close>, \<^verbatim>\<open>AES_set_decrypt_key\<close>, \<^verbatim>\<open>AES_encrypt\<close> and \<^verbatim>\<open>AES_decrypt\<close>
  belong to OpenSSL, not to this repository. The single-block cipher is a parameter of
  the model: a function from the key bytes and a 16-byte block to a block. Key setup
  takes the key length in bits as an \<^verbatim>\<open>int\<close> and returns 0 exactly for 128, 192 and
  256 bits; the key schedule reads that many bits of the key buffer.
\<close>

type_synonym block_cipher = "bytes \<Rightarrow> bytes \<Rightarrow> bytes"

definition AES_set_key :: "bytes \<Rightarrow> nat \<Rightarrow> bytes option" where
  "AES_set_key userKey bits =
     (if bits = 128 \<or> bits = 192 \<or> bits = 256 then Some (take (bits div 8) userKey) else None)"

text \<open>What the round-trip theorems assume of the cipher: blocks stay 16 bytes long and
  decryption under a key undoes encryption under the same key.\<close>

definition cipher_ok :: "block_cipher \<Rightarrow> block_cipher \<Rightarrow> bool" where
  "cipher_ok enc dec \<longleftrightarrow>
     (\<forall>k b. length b = 16 \<longrightarrow> length (enc k b) = 16 \<and> dec k (enc k b) = b)"

text \<open>A stand-in cipher pair for concrete instances of the theorems (it is not AES): the
  block is added bytewise to the zero-padded key and rotated by three positions;
  decryption rotates back and subtracts.\<close>

definition toy_encrypt :: block_cipher where
  "toy_encrypt k b = rotate 3 (map2 (+) b (take 16 (k @ replicate 16 0)))"

definition toy_decrypt :: block_cipher where
  "toy_decrypt k b = map2 (-) (rotate 13 b) (take 16 (k @ replicate 16 0))"

section \<open>NIST AES key wrap (\<^verbatim>\<open>nist_key_wrap\<close>, \<^verbatim>\<open>nist_key_unwrap\<close>)\<close>

text \<open>
  The state of both loops is the pair of the integrity register \<open>A\<close> (8 bytes) and the
  register array \<open>r_array\<close> (\<open>8 * n\<close> bytes). One pass of the inner loop body of
  \<^verbatim>\<open>nist_key_wrap\<close> (lines 92-109), for outer index \<open>j\<close> and inner index \<open>i\<close>:
\<close>

definition wrap_step :: "block_cipher \<Rightarrow> bytes \<Rightarrow> nat \<Rightarrow> nat \<Rightarrow> nat \<Rightarrow> bytes \<times> bytes \<Rightarrow> bytes \<times> bytes" where
  "wrap_step enc aes_key n j i s =
     (let A = fst s; r_array = snd s;
          aes_input = A @ take 8 (drop (u32 (i * 8)) r_array);
          aes_output = enc aes_key aes_input;
          A1 = take 8 aes_output;
          t = u32 (u32 (n * j) + u32 (i + 1));
          A2 = A1[7 := (A1 ! 7) XOR (of_nat t)]
      in (A2, memcpy r_array (u32 (i * 8)) (drop 8 aes_output) 8))"

text \<open>The inner loop body of \<^verbatim>\<open>nist_key_unwrap\<close> (lines 176-193).\<close>

definition unwrap_step :: "block_cipher \<Rightarrow> bytes \<Rightarrow> nat \<Rightarrow> nat \<Rightarrow> nat \<Rightarrow> bytes \<times> bytes \<Rightarrow> bytes \<times> bytes" where
  "unwrap_step dec aes_key n j i s =
     (let A = fst s; r_array = snd s;
          t = u32 (u32 (n * j) + u32 (i + 1));
          A1 = A[7 := (A ! 7) XOR (of_nat t)];
          aes_input = A1 @ take 8 (drop (u32 (i * 8)) r_array);
          aes_output = dec aes_key aes_input
      in (take 8 aes_output, memcpy r_array (u32 (i * 8)) (drop 8 aes_output) 8))"

text \<open>The two nested loops: \<open>j = 0..5\<close>, \<open>i = 0..n-1\<close> when wrapping; \<open>j = 5..0\<close>,
  \<open>i = n-1..0\<close> when unwrapping.\<close>

definition wrap_rounds :: "block_cipher \<Rightarrow> bytes \<Rightarrow> nat \<Rightarrow> bytes \<times> bytes \<Rightarrow> bytes \<times> bytes" where
  "wrap_rounds enc aes_key n s =
     fold (\<lambda>j. fold (wrap_step enc aes_key n j) [0..<n]) [0..<6] s"

definition unwrap_rounds :: "block_cipher \<Rightarrow> bytes \<Rightarrow> nat \<Rightarrow> bytes \<times> bytes \<Rightarrow> bytes \<times> bytes" where
  "unwrap_rounds dec aes_key n s =
     fold (\<lambda>j. fold (unwrap_step dec aes_key n j) (rev [0..<n])) (rev [0..<6]) s"

definition nist_key_wrap :: "block_cipher \<Rightarrow> bytes option \<Rightarrow> nat \<Rightarrow> bytes option \<Rightarrow> nat \<Rightarrow> bytes option" where
  "nist_key_wrap enc key key_size kek kek_size =
     (case key of None \<Rightarrow> None | Some keyb \<Rightarrow>
      (case kek of None \<Rightarrow> None | Some kekb \<Rightarrow>
        let A = memset 0xA6 8;
            n = u32 (key_size div 8);
            r_array = take (u32 (n * 8)) keyb
        in (case AES_set_key kekb (u32 (kek_size * 8)) of
             None \<Rightarrow> None
           | Some aes_key \<Rightarrow>
               (let s = wrap_rounds enc aes_key n (A, r_array)
                in Some (fst s @ take (u32 (8 * n)) (snd s))))))"

definition nist_key_unwrap :: "block_cipher \<Rightarrow> bytes option \<Rightarrow> nat \<Rightarrow> bytes option \<Rightarrow> nat \<Rightarrow> bytes option" where
  "nist_key_unwrap dec enckey enckey_size kek kek_size =
     (case enckey of None \<Rightarrow> None | Some enckeyb \<Rightarrow>
      (case kek of None \<Rightarrow> None | Some kekb \<Rightarrow>
        let A_check = memset 0xA6 8;
            n = u32 (enckey_size div 8 + (2 ^ 32 - 1))
        in (case AES_set_key kekb (u32 (kek_size * 8)) of
             None \<Rightarrow> None
           | Some aes_key \<Rightarrow>
               (let A = take 8 enckeyb;
                    r_array = take (u32 (n * 8)) (drop 8 enckeyb);
                    s = unwrap_rounds dec aes_key n (A, r_array)
                in if fst s \<noteq> A_check then None
                   else Some (take (u32 (8 * n)) (snd s))))))"

text \<open>The shape of the loop state: an 8-byte integrity register and \<open>n\<close> registers of
  8 bytes.\<close>

definition regs_ok :: "nat \<Rightarrow> bytes \<times> bytes \<Rightarrow> bool" where
  "regs_ok n s \<longleftrightarrow> length (fst s) = 8 \<and> length (snd s) = 8 * n"

section \<open>PBKDF2 (\<^verbatim>\<open>PBKDF2_F\<close>, \<^verbatim>\<open>PBKDF2\<close>)\<close>

text \<open>
  \<^verbatim>\<open>HMAC(EVP_sha1(), key, key_len, data, data_len, md, &md_len)\<close> is OpenSSL's; the model
  takes it as a parameter: a function from the key bytes and the message bytes to the
  digest. \<^verbatim>\<open>SHA_DIGEST_LENGTH\<close> is 20.
\<close>

type_synonym hmac = "bytes \<Rightarrow> bytes \<Rightarrow> bytes"

definition SHA_DIGEST_LENGTH :: nat where
  "SHA_DIGEST_LENGTH = 20"

text \<open>\<^verbatim>\<open>for(k = 0; k < SHA_DIGEST_LENGTH; k++) T[k] ^= U[k]\<close> on two 20-byte buffers.\<close>

definition xor_bytes :: "bytes \<Rightarrow> bytes \<Rightarrow> bytes" where
  "xor_bytes T U = map2 (XOR) T U"

text \<open>The four bytes that \<^verbatim>\<open>memcpy(.., &swapped_i, 4)\<close> copies after
  \<^verbatim>\<open>swapped_i = htonl(i)\<close>: the big-endian representation of \<open>i\<close>.\<close>

definition htonl_bytes :: "nat \<Rightarrow> bytes" where
  "htonl_bytes i = [of_nat (i div 2 ^ 24), of_nat (i div 2 ^ 16), of_nat (i div 2 ^ 8), of_nat i]"

text \<open>An \<^verbatim>\<open>unsigned int\<close> passed for an \<^verbatim>\<open>int\<close> parameter (\<open>c\<close> in the call of
  \<^verbatim>\<open>PBKDF2_F\<close>).\<close>

definition s32 :: "nat \<Rightarrow> int" where
  "s32 x = (if u32 x < 2 ^ 31 then int (u32 x) else int (u32 x) - 2 ^ 32)"

text \<open>
  The loop of \<^verbatim>\<open>PBKDF2_F\<close> (lines 324-330), \<open>k\<close> passes left, on the pair of \<open>T\<close> and
  \<open>U\<close>: \<open>U\<close> is XORed into \<open>T\<close>, then replaced by its HMAC; a digest of another length
  than 20 ends the function with 0 (\<open>None\<close>).
\<close>

fun F_rounds :: "hmac \<Rightarrow> bytes \<Rightarrow> nat \<Rightarrow> bytes \<times> bytes \<Rightarrow> (bytes \<times> bytes) option" where
  "F_rounds h P 0 s = Some s"
| "F_rounds h P (Suc k) s =
     (let T = xor_bytes (fst s) (snd s);
          U = h P (take SHA_DIGEST_LENGTH (snd s))
      in if length U \<noteq> SHA_DIGEST_LENGTH then None else F_rounds h P k (T, U))"

text \<open>\<^verbatim>\<open>PBKDF2_F\<close> returns 1 and has updated \<open>T\<close> (\<open>Some\<close> of the new \<open>T\<close>), or returns
  0 (\<open>None\<close>). The loop \<^verbatim>\<open>for(j = 0; j < c; j++)\<close> runs \<open>c\<close> times for a positive
  \<open>c\<close> and not at all for a negative one.\<close>

definition PBKDF2_F :: "hmac \<Rightarrow> bytes option \<Rightarrow> bytes option \<Rightarrow> nat \<Rightarrow> bytes option \<Rightarrow> nat \<Rightarrow> int \<Rightarrow> nat \<Rightarrow> bytes option" where
  "PBKDF2_F h T password password_len salt salt_len c i =
     (case T of None \<Rightarrow> None | Some Tb \<Rightarrow>
      (case password of None \<Rightarrow> None | Some P \<Rightarrow>
       (case salt of None \<Rightarrow> None | Some S \<Rightarrow>
         if password_len = 0 \<or> salt_len = 0 \<or> c = 0 then None
         else
           let U1 = take salt_len S @ htonl_bytes i;
               U = h (take password_len P) U1
           in if length U \<noteq> SHA_DIGEST_LENGTH then None
              else (case F_rounds h (take password_len P) (nat c) (Tb, U) of
                      None \<Rightarrow> None
                    | Some s \<Rightarrow> Some (xor_bytes (fst s) (snd s))))))"

text \<open>
  The loop of \<^verbatim>\<open>PBKDF2\<close> (lines 370-382) over the block indices, on the triple of \<open>T\<close>,
  the derived key \<open>dk\<close> and \<open>remaining_bytes\<close>. \<open>T\<close> is set to zero once, before the
  loop, and is not reset between blocks.
\<close>

fun PBKDF2_blocks :: "hmac \<Rightarrow> bytes option \<Rightarrow> nat \<Rightarrow> bytes option \<Rightarrow> nat \<Rightarrow> int \<Rightarrow> nat list \<Rightarrow>
    bytes \<times> bytes \<times> nat \<Rightarrow> (bytes \<times> bytes \<times> nat) option" where
  "PBKDF2_blocks h password password_len salt salt_len c [] st = Some st"
| "PBKDF2_blocks h password password_len salt salt_len c (i # rest) st =
     (case PBKDF2_F h (Some (fst st)) password password_len salt salt_len c i of
        None \<Rightarrow> None
      | Some T \<Rightarrow>
          (let dk = fst (snd st); remaining_bytes = snd (snd st)
           in if remaining_bytes \<ge> SHA_DIGEST_LENGTH
              then PBKDF2_blocks h password password_len salt salt_len c rest
                     (T, memcpy dk (i * SHA_DIGEST_LENGTH) T SHA_DIGEST_LENGTH,
                      remaining_bytes - SHA_DIGEST_LENGTH)
              else PBKDF2_blocks h password password_len salt salt_len c rest
                     (T, memcpy dk (i * SHA_DIGEST_LENGTH) T remaining_bytes, 0)))"

definition PBKDF2 :: "hmac \<Rightarrow> bytes option \<Rightarrow> nat \<Rightarrow> bytes option \<Rightarrow> nat \<Rightarrow> nat \<Rightarrow> nat \<Rightarrow> bytes option" where
  "PBKDF2 h password password_len salt salt_len c dkey_len =
     (if password = None \<or> password_len = 0 \<or> salt = None \<or> salt_len = 0 \<or> u32 c = 0 \<or> dkey_len = 0
      then None
      else
        let dk = memset 0 dkey_len;
            T = memset 0 SHA_DIGEST_LENGTH;
            l = u32 (u32 (dkey_len div SHA_DIGEST_LENGTH) +
                     (if dkey_len mod SHA_DIGEST_LENGTH \<noteq> 0 then 1 else 0))
        in map_option (\<lambda>st. fst (snd st))
             (PBKDF2_blocks h password password_len salt salt_len (s32 c) [0..<l] (T, dk, dkey_len)))"

text \<open>
  The standard construction, written from the specification's words (PBKDF2 with
  HMAC-SHA1 as in PKCS #5 and RFC 2898): block \<open>i\<close>, counted from 1, is the XOR of
  exactly \<open>c\<close> values \<open>U\<^sub>1 = PRF(P, S || INT(i))\<close>, \<open>U\<^sub>k\<^sub>+\<^sub>1 = PRF(P, U\<^sub>k)\<close>, and the derived key
  is the first \<open>dkLen\<close> bytes of \<open>T\<^sub>1 || T\<^sub>2 || ...\<close>.
\<close>

fun std_U :: "hmac \<Rightarrow> bytes \<Rightarrow> bytes \<Rightarrow> nat \<Rightarrow> bytes" where
  "std_U h P m 0 = h P m"
| "std_U h P m (Suc k) = h P (std_U h P m k)"

definition std_F :: "hmac \<Rightarrow> bytes \<Rightarrow> bytes \<Rightarrow> nat \<Rightarrow> nat \<Rightarrow> bytes" where
  "std_F h P S c i =
     fold (\<lambda>k T. xor_bytes T (std_U h P (S @ htonl_bytes i) k)) [0..<c] (replicate 20 0)"

definition pbkdf2_std :: "hmac \<Rightarrow> bytes \<Rightarrow> bytes \<Rightarrow> nat \<Rightarrow> nat \<Rightarrow> bytes" where
  "pbkdf2_std h P S c dkLen =
     take dkLen (concat (map (std_F h P S c) [1..<Suc ((dkLen + 19) div 20)]))"

text \<open>A stand-in for HMAC in concrete instances (it is not HMAC): 20 equal bytes computed
  from the sum of the key bytes and the first and last message bytes.\<close>

definition toy_hmac :: hmac where
  "toy_hmac k m = replicate 20 (sum_list k + 2 * hd m + 3 * last m)"

section \<open>The adder of the cluster (\<^verbatim>\<open>adder.go\<close>: \<^verbatim>\<open>Adder.FromFiles\<close>, \<^verbatim>\<open>Adder.FromFile\<close>)\<close>














section \<open>The key store (\<^verbatim>\<open>read_pdp_keypair\<close>, \<^verbatim>\<open>read_pdp_keypair_temp\<close>, \<^verbatim>\<open>write_pdp_keypair\<close>, \<^verbatim>\<open>pdp_create_new_keypair\<close>)\<close>

text \<open>
  A PDP key: the RSA key (a value of OpenSSL's, of an abstract type), the generator \<open>g\<close>
  (a non-negative \<^verbatim>\<open>BIGNUM\<close>) and the PRF secret \<open>v\<close>.
\<close>

record 'rsa PDP_key =
  PDP_rsa :: "'rsa"
  PDP_g :: nat
  PDP_v :: bytes

text \<open>
  What the functions take from outside this file. \<^verbatim>\<open>PRF_KEY_SIZE\<close> and \<^verbatim>\<open>PRP_KEY_SIZE\<close>
  are constants of the header \<^verbatim>\<open>pdp.h\<close>, which is not among the sources, and
  \<^verbatim>\<open>DEBUG_MODE\<close> is a build flag; the other fields are OpenSSL's functions.
  \<^verbatim>\<open>PEM_read_PrivateKey\<close> gives the key read (\<open>None\<close> inside when
  \<^verbatim>\<open>EVP_PKEY_get1_RSA\<close> finds no RSA key) and the rest of the stream;
  \<^verbatim>\<open>PEM_read_RSAPublicKey\<close> gives the rest of the stream, since the key it reads is
  freed at once.
\<close>

record 'rsa pdp_params =
  PRF_KEY_SIZE :: nat
  PRP_KEY_SIZE :: nat
  DEBUG_MODE :: bool
  AES_encrypt :: block_cipher
  AES_decrypt :: block_cipher
  HMAC_SHA1 :: hmac
  PEM_write_PKCS8PrivateKey :: "'rsa \<Rightarrow> string \<Rightarrow> bytes option"
  PEM_read_PrivateKey :: "bytes \<Rightarrow> string \<Rightarrow> ('rsa option \<times> bytes) option"
  PEM_write_RSAPublicKey :: "'rsa \<Rightarrow> bytes option"
  PEM_read_RSAPublicKey :: "bytes \<Rightarrow> bytes option"
  RSA_check_key :: "'rsa \<Rightarrow> bool"

text \<open>A passphrase is a C string: the characters before the first NUL. Its bytes are
  what \<^verbatim>\<open>(unsigned char *)password\<close> points to.\<close>

definition cstring :: "string \<Rightarrow> string" where
  "cstring s = takeWhile (\<lambda>c. c \<noteq> CHR 0x00) s"

definition bytes_of :: "string \<Rightarrow> bytes" where
  "bytes_of s = map (\<lambda>c. of_nat (of_char c)) s"

text \<open>The passphrase buffers are \<^verbatim>\<open>char[1024]\<close>; this is one after
  \<^verbatim>\<open>memset(password, 0, password_len)\<close>.\<close>

definition zero_password :: string where
  "zero_password = replicate 1024 (CHR 0x00)"

text \<open>Modelled from the spec: \<^verbatim>\<open>sfree\<close> is defined in \<^verbatim>\<open>pdp-misc.c\<close>, which is not among
  the sources; by the specification a secret buffer is explicitly zeroed before release.
  \<open>sfree buf len\<close> is the content of the buffer when it is released: its first \<open>len\<close>
  bytes are zero.\<close>

definition sfree :: "bytes \<Rightarrow> nat \<Rightarrow> bytes" where
  "sfree buf len = replicate (min len (length buf)) 0 @ drop len buf"

text \<open>\<^verbatim>\<open>fread(buf, n, 1, stream)\<close> into a zeroed buffer of \<open>n\<close> bytes: the buffer and the
  rest of the stream. (After a short read the C standard leaves the buffer's content
  indeterminate; the model keeps the zeros.)\<close>

definition fread :: "nat \<Rightarrow> bytes \<Rightarrow> bytes \<times> bytes" where
  "fread n stream = (take n stream @ replicate (n - length stream) 0, drop n stream)"

text \<open>A \<^verbatim>\<open>size_t\<close> as it is written by \<^verbatim>\<open>fwrite(&gen_size, sizeof(size_t), 1, f)\<close>: 8 bytes,
  least significant first (the layout of the x86-64 targets the Makefile builds for).\<close>

fun le_bytes :: "nat \<Rightarrow> nat \<Rightarrow> bytes" where
  "le_bytes 0 n = []"
| "le_bytes (Suc k) n = of_nat (n mod 256) # le_bytes k (n div 256)"

fun le_nat :: "bytes \<Rightarrow> nat" where
  "le_nat [] = 0"
| "le_nat (b # bs) = unat b + 256 * le_nat bs"

text \<open>\<^verbatim>\<open>BN_num_bytes\<close>, \<^verbatim>\<open>BN_bn2bin\<close> (big-endian, no leading zero) and \<^verbatim>\<open>BN_bin2bn\<close> of
  OpenSSL on non-negative numbers.\<close>

fun BN_num_bytes :: "nat \<Rightarrow> nat" where
  "BN_num_bytes n = (if n = 0 then 0 else Suc (BN_num_bytes (n div 256)))"

definition BN_bn2bin :: "nat \<Rightarrow> bytes" where
  "BN_bn2bin n = rev (le_bytes (BN_num_bytes n) n)"

definition BN_bin2bn :: "bytes \<Rightarrow> nat" where
  "BN_bin2bn bs = le_nat (rev bs)"

text \<open>
  \<^verbatim>\<open>read_password(prompt, buf, bufsize)\<close> with a buffer given: \<open>None\<close> when the terminal
  cannot be opened (\<open>tty = None\<close>) or the line does not fit, else the characters typed
  before the newline or the end of the input.
\<close>

definition read_password :: "string option \<Rightarrow> nat \<Rightarrow> string option" where
  "read_password tty bufsize =
     (case tty of
        None \<Rightarrow> None
      | Some input \<Rightarrow>
          (let typed = takeWhile (\<lambda>c. c \<noteq> CHR 0x0A) input
           in if length typed \<ge> bufsize then None else Some typed))"

text \<open>
  The calls into the system that can fail independently of the data are not modelled one
  by one: a run has at most one injected fault, the first step that fails.
\<close>

datatype read_fault = No_fault | Alloc_key | Alloc_rest | Ferror_salt | Ferror_enc_v | Alloc_gen | Bin2bn

text \<open>
  What a run of a loading function leaves behind: the key returned (\<open>None\<close> is \<^verbatim>\<open>NULL\<close>),
  the content of the local \<^verbatim>\<open>password\<close> buffer when the function returns (\<open>None\<close> when
  it was never written), the content of the derived key \<open>dk\<close> when it is released
  (\<open>None\<close> when it was never allocated), and the lines printed to \<^verbatim>\<open>stdout\<close> and
  \<^verbatim>\<open>stderr\<close>.
\<close>

record 'rsa load_outcome =
  loaded :: "'rsa PDP_key option"
  password_buf :: "string option"
  dk_released :: "bytes option"
  out :: "string list"
  err :: "string list"

text \<open>The \<^verbatim>\<open>cleanup\<close> label of the loading functions (lines 487-500 and 598-611).\<close>

definition read_cleanup :: "'rsa pdp_params \<Rightarrow> bytes option \<Rightarrow> string list \<Rightarrow> string list \<Rightarrow> 'rsa load_outcome" where
  "read_cleanup L dk so se =
     \<lparr>loaded = None, password_buf = Some zero_password,
      dk_released = map_option (\<lambda>d. sfree d (PRP_KEY_SIZE L)) dk, out = so, err = se\<rparr>"

text \<open>
  Lines 438-485 (and the identical lines 549-596): from the decryption of the private
  key to the return, for the passphrase held in the buffer and the lines printed so far.
\<close>

definition read_keys :: "'rsa pdp_params \<Rightarrow> read_fault \<Rightarrow> bytes \<Rightarrow> bytes \<Rightarrow> string \<Rightarrow> string list \<Rightarrow> 'rsa load_outcome" where
  "read_keys L fault pri_key pub_key password so =
     (case PEM_read_PrivateKey L pri_key password of
        None \<Rightarrow> read_cleanup L None so [''ERROR: Failed to decrypt key.'']
      | Some pk \<Rightarrow>
     (case fst pk of
        None \<Rightarrow> read_cleanup L None so []
      | Some rsa \<Rightarrow>
     if \<not> RSA_check_key L rsa then read_cleanup L None so []
     else
       let salt = fst (fread (PRF_KEY_SIZE L) (snd pk));
           rest1 = snd (fread (PRF_KEY_SIZE L) (snd pk))
       in if fault = Ferror_salt then read_cleanup L None so []
     else
       let enc_v = fst (fread 40 rest1)
       in if fault = Ferror_enc_v then read_cleanup L None so []
     else
     (case PBKDF2 (HMAC_SHA1 L) (Some (bytes_of password)) (length password) (Some salt)
             (PRF_KEY_SIZE L) 10000 (PRP_KEY_SIZE L) of
        None \<Rightarrow> read_cleanup L None so []
      | Some dk \<Rightarrow>
     (case nist_key_unwrap (AES_decrypt L) (Some enc_v) 40 (Some dk) (PRP_KEY_SIZE L) of
        None \<Rightarrow> read_cleanup L (Some dk) so []
      | Some key_v \<Rightarrow>
     (case PEM_read_RSAPublicKey L pub_key of
        None \<Rightarrow> read_cleanup L (Some dk) so []
      | Some rest_pub \<Rightarrow>
       let gen_size = le_nat (fst (fread 8 rest_pub))
       in if fault = Alloc_gen then read_cleanup L (Some dk) so []
     else
       let gen = fst (fread gen_size (snd (fread 8 rest_pub)))
       in if fault = Bin2bn then read_cleanup L (Some dk) so []
     else
       \<lparr>loaded = Some \<lparr>PDP_rsa = rsa, PDP_g = BN_bin2bn gen,
                        PDP_v = memcpy (memset 0 (PRF_KEY_SIZE L)) 0 key_v (PRF_KEY_SIZE L)\<rparr>,
        password_buf = Some zero_password,
        dk_released = Some (sfree dk (PRP_KEY_SIZE L)), out = so, err = []\<rparr>)))))"

text \<open>The common beginning (lines 414-429 and 524-539): the \<^verbatim>\<open>NULL\<close> checks and the
  allocations. The two early returns leave the \<^verbatim>\<open>password\<close> buffer unwritten.\<close>

definition read_start :: "'rsa pdp_params \<Rightarrow> read_fault \<Rightarrow> bytes option \<Rightarrow> bytes option \<Rightarrow> 'rsa load_outcome option" where
  "read_start L fault pri_key pub_key =
     (if pri_key = None \<or> pub_key = None \<or> fault = Alloc_key
      then Some \<lparr>loaded = None, password_buf = None, dk_released = None, out = [], err = []\<rparr>
      else if fault = Alloc_rest then Some (read_cleanup L None [] [])
      else None)"

text \<open>\<^verbatim>\<open>read_pdp_keypair\<close> asks the terminal for the passphrase (line 434).\<close>

definition read_pdp_keypair :: "'rsa pdp_params \<Rightarrow> read_fault \<Rightarrow> string option \<Rightarrow> bytes option \<Rightarrow> bytes option \<Rightarrow> 'rsa load_outcome" where
  "read_pdp_keypair L fault tty pri_key pub_key =
     (case read_start L fault pri_key pub_key of
        Some r \<Rightarrow> r
      | None \<Rightarrow>
          (case (if DEBUG_MODE L then Some ''z'' else read_password tty 1024) of
             None \<Rightarrow> read_cleanup L None [] []
           | Some password \<Rightarrow>
               read_keys L fault (the pri_key) (the pub_key) (cstring password) []))"

text \<open>\<^verbatim>\<open>read_pdp_keypair_temp\<close> copies the passphrase it is given and prints it
  (lines 545-546). A passphrase of 1024 characters or more overruns the buffer in C;
  the model is meant for shorter ones.\<close>

definition read_pdp_keypair_temp :: "'rsa pdp_params \<Rightarrow> read_fault \<Rightarrow> bytes option \<Rightarrow> bytes option \<Rightarrow> string \<Rightarrow> 'rsa load_outcome" where
  "read_pdp_keypair_temp L fault pri_key pub_key password_in =
     (case read_start L fault pri_key pub_key of
        Some r \<Rightarrow> r
      | None \<Rightarrow>
          (if DEBUG_MODE L
           then read_keys L fault (the pri_key) (the pub_key) ''z'' []
           else read_keys L fault (the pri_key) (the pub_key) (cstring password_in)
                  [''Password in read pdp keypair:'' @ cstring password_in @ [CHR 0x0A]]))"

text \<open>
  \<^verbatim>\<open>write_pdp_keypair(key, password, keypath)\<close>. \<open>pw\<close> is what \<^verbatim>\<open>getpwuid(getuid())\<close> gives
  (the home directory, \<open>None\<close> for \<^verbatim>\<open>NULL\<close>) and \<open>rand\<close> the bytes \<^verbatim>\<open>RAND_bytes\<close> produces.
  The outcome has the value returned (\<open>written\<close> is 1), the two files as they are closed
  on success (on failure they are left partly written or unlinked, and are not
  reported), the derived key when it is released and the lines printed. When \<^verbatim>\<open>getpwuid\<close>
  fails, the \<^verbatim>\<open>cleanup\<close> label reads \<^verbatim>\<open>pw->pw_dir\<close> through the null pointer (line 747):
  \<open>crashed\<close>.
\<close>

datatype write_fault = W_none | W_alloc | W_fopen_pri | W_fopen_pub | W_set1_RSA | W_RAND
  | W_ferror_salt | W_ferror_enc_v | W_alloc_gen

record write_outcome =
  written :: bool
  crashed :: bool
  pri_file :: "bytes option"
  pub_file :: "bytes option"
  w_dk_released :: "bytes option"
  w_out :: "string list"
  w_err :: "string list"

definition write_cleanup :: "'rsa pdp_params \<Rightarrow> bytes option \<Rightarrow> string list \<Rightarrow> string list \<Rightarrow> write_outcome" where
  "write_cleanup L dk so se =
     \<lparr>written = False, crashed = False, pri_file = None, pub_file = None,
      w_dk_released = map_option (\<lambda>d. sfree d (PRP_KEY_SIZE L)) dk,
      w_out = so, w_err = se @ [''ERROR: Did not create key pair.'']\<rparr>"

definition write_pdp_keypair :: "'rsa pdp_params \<Rightarrow> write_fault \<Rightarrow> string option \<Rightarrow> bytes \<Rightarrow>
    'rsa PDP_key option \<Rightarrow> string option \<Rightarrow> string option \<Rightarrow> write_outcome" where
  "write_pdp_keypair L fault pw rand key password keypath =
     (if key = None \<or> password = None
      then \<lparr>written = False, crashed = False, pri_file = None, pub_file = None,
            w_dk_released = None, w_out = [], w_err = []\<rparr>
      else
       let K = the key; p = cstring (the password);
           so = ''test'' #
             (case keypath of
                None \<Rightarrow> []
              | Some kp \<Rightarrow> [''keypath:'' @ kp, ''PDP Public Key path: '' @ kp @ ''/pdp.pub'',
                            ''PDP Private Key path: '' @ kp @ ''/pdp.pri''])
       in if pw = None
          then \<lparr>written = False, crashed = True, pri_file = None, pub_file = None,
                w_dk_released = None, w_out = so, w_err = [''ERROR: Did not create key pair.'']\<rparr>
     else if fault = W_alloc \<or> fault = W_fopen_pri \<or> fault = W_fopen_pub
          then write_cleanup L None so []
     else if fault = W_set1_RSA then write_cleanup L None (so @ [''PDPKey open success'']) []
     else
     (case PEM_write_PKCS8PrivateKey L (PDP_rsa K) p of
        None \<Rightarrow> write_cleanup L None (so @ [''PDPKey open success'']) [''Did not write private key'']
      | Some pem \<Rightarrow>
     if fault = W_RAND then write_cleanup L None (so @ [''PDPKey open success'']) []
     else
       let salt = memcpy (memset 0 (PRF_KEY_SIZE L)) 0 rand (PRF_KEY_SIZE L)
       in
     (case PBKDF2 (HMAC_SHA1 L) (Some (bytes_of p)) (length p) (Some salt)
             (PRF_KEY_SIZE L) 10000 (PRP_KEY_SIZE L) of
        None \<Rightarrow> write_cleanup L None (so @ [''PDPKey open success'']) []
      | Some dk \<Rightarrow>
       let key_v = memcpy (memset 0 32) 0 (PDP_v K) (PRF_KEY_SIZE L)
       in
     (case nist_key_wrap (AES_encrypt L) (Some key_v) 32 (Some dk) (PRP_KEY_SIZE L) of
        None \<Rightarrow> write_cleanup L (Some dk) (so @ [''PDPKey open success'']) []
      | Some enc_v \<Rightarrow>
     if fault = W_ferror_salt \<or> fault = W_ferror_enc_v
     then write_cleanup L (Some dk) (so @ [''PDPKey open success'']) []
     else
     (case PEM_write_RSAPublicKey L (PDP_rsa K) of
        None \<Rightarrow> write_cleanup L (Some dk) (so @ [''PDPKey open success'']) []
      | Some pub_pem \<Rightarrow>
       let gen_size = BN_num_bytes (PDP_g K)
       in if fault = W_alloc_gen \<or> length (BN_bn2bin (PDP_g K)) = 0
          then write_cleanup L (Some dk) (so @ [''PDPKey open success'']) []
          else
            \<lparr>written = True, crashed = False,
             pri_file = Some (pem @ salt @ take 40 enc_v),
             pub_file = Some (pub_pem @ le_bytes 8 gen_size @ BN_bn2bin (PDP_g K)),
             w_dk_released = Some (sfree dk (PRP_KEY_SIZE L)),
             w_out = so @ [''PDPKey open success''], w_err = []\<rparr>)))))"

text \<open>
  \<^verbatim>\<open>pdp_create_new_keypair\<close>. The environment: the home directory, whether both key
  files exist and the character answered to the warning, what the terminal gives to the
  successive calls of \<^verbatim>\<open>read_password\<close>, the key \<^verbatim>\<open>generate_pdp_key\<close> returns, and the
  fault and random bytes of the call of \<^verbatim>\<open>write_pdp_keypair\<close> (which asks for the same
  \<^verbatim>\<open>getpwuid(getuid())\<close>).
\<close>

record 'rsa create_env =
  pw_dir :: "string option"
  keys_exist :: bool
  yesorno :: char
  tty_reads :: "string option list"
  generate_pdp_key :: "'rsa PDP_key option"
  write_fault :: write_fault
  RAND_bytes :: bytes

record 'rsa create_outcome =
  created :: "'rsa PDP_key option"
  password1_buf :: string
  password2_buf :: string
  c_dk_released :: "bytes option"
  c_pri_file :: "bytes option"
  c_pub_file :: "bytes option"
  c_out :: "string list"
  c_err :: "string list"

text \<open>The \<^verbatim>\<open>do ... while(!got_password)\<close> loop (lines 796-807) on the terminal inputs that
  remain: \<open>None\<close> while the inputs given do not end the loop, else the passphrase
  (\<open>None\<close> when a \<^verbatim>\<open>read_password\<close> failed) and the lines printed.\<close>

fun get_passphrase :: "string option list \<Rightarrow> string list \<Rightarrow> (string option \<times> string list) option" where
  "get_passphrase (t1 # t2 # rest) so =
     (case read_password t1 1024 of
        None \<Rightarrow> Some (None, so)
      | Some p1 \<Rightarrow>
          (case read_password t2 1024 of
             None \<Rightarrow> Some (None, so)
           | Some p2 \<Rightarrow>
               if cstring p1 = cstring p2 then Some (Some (cstring p1), so)
               else get_passphrase rest (so @ [''Passphrases do not match.  Try again.''])))"
| "get_passphrase [t1] so =
     (case read_password t1 1024 of None \<Rightarrow> Some (None, so) | Some p1 \<Rightarrow> None)"
| "get_passphrase [] so = None"

text \<open>The \<^verbatim>\<open>cleanup\<close> label (lines 835-841): both passphrase buffers are zeroed.\<close>

definition create_cleanup :: "string list \<Rightarrow> 'rsa create_outcome" where
  "create_cleanup so =
     \<lparr>created = None, password1_buf = zero_password, password2_buf = zero_password,
      c_dk_released = None, c_pri_file = None, c_pub_file = None,
      c_out = so, c_err = [''ERROR: Unable to create PDP key pair.'']\<rparr>"

definition pdp_create_new_keypair :: "'rsa pdp_params \<Rightarrow> 'rsa create_env \<Rightarrow> 'rsa create_outcome option" where
  "pdp_create_new_keypair L E =
     (if pw_dir E = None then Some (create_cleanup [])
      else
       let so = (if keys_exist E
                 then [''WARNING: A PDP key pair already exists.  Creating a new key pair'',
                       ''will make any previously tagged files unverifiable.'',
                       ''Are you sure you want to continue? (y/N) '']
                 else [])
       in if keys_exist E \<and> yesorno E \<noteq> CHR ''y'' then Some (create_cleanup so)
     else
     (case get_passphrase (tty_reads E) (so @ [''Generating a new PDP key pair.'']) of
        None \<Rightarrow> None
      | Some got \<Rightarrow>
     (case fst got of
        None \<Rightarrow> Some (create_cleanup (snd got))
      | Some password1 \<Rightarrow>
     (case generate_pdp_key E of
        None \<Rightarrow> Some (create_cleanup (snd got))
      | Some key \<Rightarrow>
       let w = write_pdp_keypair L (write_fault E) (pw_dir E) (RAND_bytes E) (Some key)
                 (Some password1) None
       in if \<not> written w
          then Some \<lparr>created = None, password1_buf = zero_password,
                     password2_buf = zero_password, c_dk_released = w_dk_released w,
                     c_pri_file = None, c_pub_file = None, c_out = snd got @ w_out w,
                     c_err = w_err w @ [''ERROR: Unable to create PDP key pair.'']\<rparr>
          else Some \<lparr>created = Some key, password1_buf = zero_password,
                     password2_buf = zero_password, c_dk_released = w_dk_released w,
                     c_pri_file = pri_file w, c_pub_file = pub_file w,
                     c_out = snd got @ w_out w @ [''Your PDP keys have been stored.''],
                     c_err = w_err w\<rparr>))))"

text \<open>
  Stand-ins for OpenSSL in concrete instances (they are not PEM): the private key file
  starts with the length of the passphrase, the passphrase and the key, and reading it
  with another passphrase fails; RSA keys are bytes.
\<close>

definition toy_PEM_write_PrivateKey :: "byte \<Rightarrow> string \<Rightarrow> bytes option" where
  "toy_PEM_write_PrivateKey rsa p =
     (if length p < 256 then Some (of_nat (length p) # bytes_of p @ [rsa]) else None)"

definition toy_PEM_read_PrivateKey :: "bytes \<Rightarrow> string \<Rightarrow> (byte option \<times> bytes) option" where
  "toy_PEM_read_PrivateKey bs p =
     (if length p < 256 \<and> length p + 2 \<le> length bs \<and> hd bs = of_nat (length p) \<and>
         take (length p) (tl bs) = bytes_of p
      then Some (Some (bs ! (length p + 1)), drop (length p + 2) bs)
      else None)"

definition toy_params :: "byte pdp_params" where
  "toy_params =
     \<lparr>PRF_KEY_SIZE = 20, PRP_KEY_SIZE = 16, DEBUG_MODE = False,
      AES_encrypt = toy_encrypt, AES_decrypt = toy_decrypt, HMAC_SHA1 = toy_hmac,
      PEM_write_PKCS8PrivateKey = toy_PEM_write_PrivateKey,
      PEM_read_PrivateKey = toy_PEM_read_PrivateKey,
      PEM_write_RSAPublicKey = (\<lambda>rsa. Some [rsa, 0x2D]),
      PEM_read_RSAPublicKey = (\<lambda>bs. if 2 \<le> length bs then Some (drop 2 bs) else None),
      RSA_check_key = (\<lambda>rsa. True)\<rparr>"

definition toy_key :: "byte PDP_key" where
  "toy_key = \<lparr>PDP_rsa = 7, PDP_g = 258, PDP_v = replicate 20 1\<rparr>"

(* DEFINITIONS-END *)

section \<open>Properties of the key wrap\<close>


lemma u32_id: "x < 2 ^ 32 \<Longrightarrow> u32 x = x"
  by (simp add: u32_def)

lemma fold_undo:
  assumes "\<And>x s. x \<in> set xs \<Longrightarrow> P s \<Longrightarrow> P (f x s) \<and> g x (f x s) = s"
    and "P s"
  shows "P (fold f xs s) \<and> fold g (rev xs) (fold f xs s) = s"
  using assms
proof (induction xs arbitrary: s)
  case Nil
  then show ?case by simp
next
  case (Cons x xs)
  have step: "P (f x s) \<and> g x (f x s) = s"
    using Cons.prems by simp
  have "P (fold f xs (f x s)) \<and> fold g (rev xs) (fold f xs (f x s)) = f x s"
    using Cons.IH [of "f x s"] Cons.prems(1) step by simp
  then show ?case using step by simp
qed


lemma xor_cancel_at7:
  fixes A :: bytes
  assumes "length A = 8"
  shows "(A[7 := (A ! 7) XOR t])[7 := ((A[7 := (A ! 7) XOR t]) ! 7) XOR t] = A"
  using assms by (simp add: list_update_same_conv xor.assoc)

lemma memcpy_length:
  "off + len \<le> length dst \<Longrightarrow> len \<le> length src \<Longrightarrow> length (memcpy dst off src len) = length dst"
  by (simp add: memcpy_def)

lemma memcpy_read:
  "off + len \<le> length dst \<Longrightarrow> length src = len \<Longrightarrow> take len (drop off (memcpy dst off src len)) = src"
  by (simp add: memcpy_def)

lemma memcpy_restore:
  "off + len \<le> length dst \<Longrightarrow> length src = len \<Longrightarrow>
   memcpy (memcpy dst off src len) off (take len (drop off dst)) len = dst"
proof -
  assume a: "off + len \<le> length dst" "length src = len"
  have "take off dst @ take len (drop off dst) @ drop (off + len) dst = dst"
    by (metis append_take_drop_id drop_drop add.commute)
  with a show ?thesis by (simp add: memcpy_def)
qed

lemma wrap_step_undo:
  assumes c: "cipher_ok enc dec" and ok: "regs_ok n s" and i: "i < n" and n: "n < 2 ^ 28"
  shows "regs_ok n (wrap_step enc k n j i s) \<and> unwrap_step dec k n j i (wrap_step enc k n j i s) = s"
proof -
  obtain A R where s: "s = (A, R)" by (cases s)
  have lA: "length A = 8" and lR: "length R = 8 * n" using ok s by (simp_all add: regs_ok_def)
  have off: "u32 (i * 8) = i * 8" using i n by (intro u32_id) simp
  have room: "i * 8 + 8 \<le> length R" using i lR by simp
  define inp where "inp = A @ take 8 (drop (i * 8) R)"
  define out where "out = enc k inp"
  have linp: "length inp = 16" using lA room by (simp add: inp_def)
  have lout: "length out = 16" and dec: "dec k out = inp"
    using c linp by (simp_all add: cipher_ok_def out_def)
  define t :: byte where "t = of_nat (u32 (u32 (n * j) + u32 (Suc i)))"
  define A2 where "A2 = (take 8 out)[7 := (take 8 out ! 7) XOR t]"
  define R2 where "R2 = memcpy R (i * 8) (drop 8 out) 8"
  have w: "wrap_step enc k n j i s = (A2, R2)"
    by (simp add: wrap_step_def s Let_def off inp_def out_def A2_def R2_def t_def)
  have lA2: "length A2 = 8" using lout by (simp add: A2_def)
  have lR2: "length R2 = length R" using room lout by (simp add: R2_def memcpy_length)
  have undo7: "A2[7 := (A2 ! 7) XOR t] = take 8 out"
    unfolding A2_def using lout by (intro xor_cancel_at7) simp
  have rd: "take 8 (drop (i * 8) R2) = drop 8 out"
    unfolding R2_def using room lout by (intro memcpy_read) simp_all
  have glue: "take 8 out @ drop 8 out = out" by simp
  have u: "unwrap_step dec k n j i (A2, R2) =
        (take 8 inp, memcpy R2 (i * 8) (drop 8 inp) 8)"
    by (simp add: unwrap_step_def Let_def off t_def [symmetric] undo7 rd dec)
  have "take 8 inp = A" using lA by (simp add: inp_def)
  moreover have "drop 8 inp = take 8 (drop (i * 8) R)" using lA by (simp add: inp_def)
  moreover have "memcpy R2 (i * 8) (take 8 (drop (i * 8) R)) 8 = R"
    unfolding R2_def using room lout by (intro memcpy_restore) simp_all
  ultimately have "unwrap_step dec k n j i (A2, R2) = (A, R)" using u by simp
  then show ?thesis using w s lA2 lR2 lR by (simp add: regs_ok_def)
qed

lemma wrap_rounds_undo:
  assumes c: "cipher_ok enc dec" and ok: "regs_ok n s" and n: "n < 2 ^ 28"
  shows "regs_ok n (wrap_rounds enc k n s) \<and> unwrap_rounds dec k n (wrap_rounds enc k n s) = s"
proof -
  have inner: "\<And>j s. regs_ok n s \<Longrightarrow>
      regs_ok n (fold (wrap_step enc k n j) [0..<n] s) \<and>
      fold (unwrap_step dec k n j) (rev [0..<n]) (fold (wrap_step enc k n j) [0..<n] s) = s"
    by (rule fold_undo [where P = "regs_ok n"]) (use c n in \<open>simp_all add: wrap_step_undo\<close>)
  show ?thesis
    unfolding wrap_rounds_def unwrap_rounds_def
    by (rule fold_undo [where P = "regs_ok n"]) (use inner ok in simp_all)
qed


lemma toy_cipher_ok: "cipher_ok toy_encrypt toy_decrypt"
proof -
  have "length (toy_encrypt k b) = 16 \<and> toy_decrypt k (toy_encrypt k b) = b" if "length b = 16" for k b
  proof -
    define p where "p = take 16 (k @ replicate 16 (0::byte))"
    have lp: "length p = 16" by (simp add: p_def)
    have l2: "length (map2 (+) b p) = 16" using that lp by simp
    have "rotate 13 (rotate 3 (map2 (+) b p)) = map2 (+) b p"
      using l2 by (simp add: rotate_rotate rotate_id)
    moreover have "map2 (-) (map2 (+) b p) p = b" using that lp
      by (intro nth_equalityI) simp_all
    ultimately show ?thesis using l2 unfolding toy_encrypt_def toy_decrypt_def p_def [symmetric] by simp
  qed
  then show ?thesis by (simp add: cipher_ok_def)
qed

lemma AES_set_key_sizes:
  "kek_size \<in> {16, 24, 32} \<Longrightarrow> AES_set_key kekb (u32 (kek_size * 8)) = Some (take kek_size kekb)"
  by (auto simp: AES_set_key_def u32_def)

lemma nist_key_wrap_Some:
  assumes c: "cipher_ok enc dec" and k: "kek_size \<in> {16, 24, 32}"
    and n: "key_size div 8 < 2 ^ 28" and l: "8 * (key_size div 8) \<le> length keyb"
  shows "nist_key_wrap enc (Some keyb) key_size (Some kekb) kek_size =
           Some (fst (wrap_rounds enc (take kek_size kekb) (key_size div 8)
                        (memset 0xA6 8, take (8 * (key_size div 8)) keyb)) @
                 snd (wrap_rounds enc (take kek_size kekb) (key_size div 8)
                        (memset 0xA6 8, take (8 * (key_size div 8)) keyb)))"
proof -
  let ?n = "key_size div 8"
  let ?init = "(memset 0xA6 8, take (8 * ?n) keyb)"
  have un: "u32 ?n = ?n" using n by (intro u32_id) simp
  have u8: "u32 (?n * 8) = 8 * ?n" "u32 (8 * ?n) = 8 * ?n" using n by (simp_all add: u32_id)
  have ok0: "regs_ok ?n ?init" using l by (simp add: regs_ok_def memset_def)
  have "regs_ok ?n (wrap_rounds enc (take kek_size kekb) ?n ?init)"
    using wrap_rounds_undo [OF c ok0 n] by simp
  then have "length (snd (wrap_rounds enc (take kek_size kekb) ?n ?init)) = 8 * ?n"
    by (simp add: regs_ok_def)
  then show ?thesis
    by (simp add: nist_key_wrap_def Let_def un u8 AES_set_key_sizes [OF k])
qed

lemma nist_key_wrap_length:
  assumes c: "cipher_ok enc dec" and k: "kek_size \<in> {16, 24, 32}"
    and n: "key_size div 8 < 2 ^ 28" and l: "8 * (key_size div 8) \<le> length keyb"
    and w: "nist_key_wrap enc (Some keyb) key_size (Some kekb) kek_size = Some ct"
  shows "length ct = 8 * (key_size div 8) + 8"
proof -
  let ?n = "key_size div 8"
  let ?init = "(memset 0xA6 8, take (8 * ?n) keyb)"
  have ok0: "regs_ok ?n ?init" using l by (simp add: regs_ok_def memset_def)
  have "regs_ok ?n (wrap_rounds enc (take kek_size kekb) ?n ?init)"
    using wrap_rounds_undo [OF c ok0 n] by simp
  then show ?thesis
    using w nist_key_wrap_Some [OF c k n l, of kekb] by (auto simp: regs_ok_def)
qed

lemma nist_key_unwrap_wrap:
  assumes c: "cipher_ok enc dec" and k: "kek_size \<in> {16, 24, 32}"
    and n: "key_size div 8 < 2 ^ 28" and l: "8 * (key_size div 8) \<le> length keyb"
    and w: "nist_key_wrap enc (Some keyb) key_size (Some kekb) kek_size = Some ct"
    and e: "enckey_size div 8 = key_size div 8 + 1"
  shows "nist_key_unwrap dec (Some (ct @ extra)) enckey_size (Some kekb) kek_size =
           Some (take (8 * (key_size div 8)) keyb)"
proof -
  let ?n = "key_size div 8"
  let ?k = "take kek_size kekb"
  let ?init = "(memset 0xA6 8, take (8 * ?n) keyb)"
  let ?s = "wrap_rounds enc ?k ?n ?init"
  have ok0: "regs_ok ?n ?init" using l by (simp add: regs_ok_def memset_def)
  have ok: "regs_ok ?n ?s" and undo: "unwrap_rounds dec ?k ?n ?s = ?init"
    using wrap_rounds_undo [OF c ok0 n] by simp_all
  have ct: "ct = fst ?s @ snd ?s"
    using w nist_key_wrap_Some [OF c k n l, of kekb] by simp
  have lf: "length (fst ?s) = 8" and ls: "length (snd ?s) = 8 * ?n"
    using ok by (simp_all add: regs_ok_def)
  have n': "u32 (enckey_size div 8 + 4294967295) = ?n"
    using n e by (simp add: u32_def)
  have u8: "u32 (?n * 8) = 8 * ?n" "u32 (8 * ?n) = 8 * ?n" using n by (simp_all add: u32_id)
  have A: "take 8 (ct @ extra) = fst ?s" using lf ct by simp
  have R: "take (8 * ?n) (drop 8 (ct @ extra)) = snd ?s" using lf ls ct by simp
  have "unwrap_rounds dec ?k ?n (take 8 (ct @ extra), take (8 * ?n) (drop 8 (ct @ extra))) = ?init"
    unfolding A R prod.collapse by (rule undo)
  then show ?thesis
    using l by (simp add: nist_key_unwrap_def Let_def n' u8 AES_set_key_sizes [OF k] del: take_append drop_append)
qed

text \<open>
  Claim C2. For every key of 16, 24 or 32 bytes and every key-encryption key of 16, 24 or
  32 bytes, \<^verbatim>\<open>nist_key_wrap\<close> returns a ciphertext that is exactly 8 bytes longer than
  the key, and \<^verbatim>\<open>nist_key_unwrap\<close> of that ciphertext under the same key-encryption key
  returns the original key bytes. The cipher is any pair in which decryption undoes
  encryption on 16-byte blocks.
\<close>

theorem nist_key_wrap_unwrap_roundtrip:
  assumes "cipher_ok enc dec"
    and "length key \<in> {16, 24, 32}"
    and "length kek \<in> {16, 24, 32}"
  shows "\<exists>ct. nist_key_wrap enc (Some key) (length key) (Some kek) (length kek) = Some ct \<and>
              length ct = length key + 8 \<and>
              nist_key_unwrap dec (Some ct) (length ct) (Some kek) (length kek) = Some key"
proof -
  let ?n = "length key div 8"
  have n: "?n < 2 ^ 28" and l: "8 * ?n \<le> length key" and full: "8 * ?n = length key"
    using assms(2) by auto
  obtain ct where w: "nist_key_wrap enc (Some key) (length key) (Some kek) (length kek) = Some ct"
    using nist_key_wrap_Some [OF assms(1) assms(3) n l, of kek] by simp
  have len: "length ct = length key + 8"
    using nist_key_wrap_length [OF assms(1) assms(3) n l w] full by simp
  have e: "length ct div 8 = ?n + 1" using len assms(2) by auto
  have "nist_key_unwrap dec (Some (ct @ [])) (length ct) (Some kek) (length kek) =
          Some (take (8 * ?n) key)"
    by (rule nist_key_unwrap_wrap [OF assms(1) assms(3) n l w e])
  then have "nist_key_unwrap dec (Some ct) (length ct) (Some kek) (length kek) = Some key"
    using full by simp
  with w len show ?thesis by blast
qed

theorem nist_key_wrap_unwrap_roundtrip_witness:
  "cipher_ok toy_encrypt toy_decrypt \<and>
   length [1, 2, 3, 4, 5, 6, 7, 8, 9, 10, 11, 12, 13, 14, 15, 16 :: byte] = 16 \<and>
   (\<exists>ct. nist_key_wrap toy_encrypt (Some [1, 2, 3, 4, 5, 6, 7, 8, 9, 10, 11, 12, 13, 14, 15, 16])
            16 (Some (replicate 16 7)) 16 = Some ct \<and>
         length ct = 24 \<and>
         nist_key_unwrap toy_decrypt (Some ct) (length ct) (Some (replicate 16 7)) 16 =
           Some [1, 2, 3, 4, 5, 6, 7, 8, 9, 10, 11, 12, 13, 14, 15, 16])"
proof -
  let ?key = "[1, 2, 3, 4, 5, 6, 7, 8, 9, 10, 11, 12, 13, 14, 15, 16] :: bytes"
  let ?kek = "replicate 16 7 :: bytes"
  have lk: "length ?key = 16" and lkek: "length ?kek = 16" by simp_all
  have "\<exists>ct. nist_key_wrap toy_encrypt (Some ?key) (length ?key) (Some ?kek) (length ?kek) = Some ct \<and>
          length ct = length ?key + 8 \<and>
          nist_key_unwrap toy_decrypt (Some ct) (length ct) (Some ?kek) (length ?kek) = Some ?key"
    by (rule nist_key_wrap_unwrap_roundtrip [OF toy_cipher_ok]) simp_all
  then have "\<exists>ct. nist_key_wrap toy_encrypt (Some ?key) 16 (Some ?kek) 16 = Some ct \<and>
          length ct = 24 \<and>
          nist_key_unwrap toy_decrypt (Some ct) (length ct) (Some ?kek) 16 = Some ?key"
    unfolding lk lkek by simp
  then show ?thesis using toy_cipher_ok lk by blast
qed





section \<open>Properties of PBKDF2\<close>


lemma fold_upt_Suc_shift:
  "fold f [0..<Suc k] T = fold (\<lambda>j. f (Suc j)) [0..<k] (f 0 T)"
proof -
  have "[0..<Suc k] = 0 # map Suc [0..<k]"
    by (simp add: upt_conv_Cons map_Suc_upt del: upt_Suc)
  then show ?thesis by (simp add: fold_map comp_def del: upt_Suc)
qed

lemma std_U_length:
  assumes "\<And>k m. length (h k m) = 20"
  shows "length (std_U h P m k) = 20"
  using assms by (cases k) simp_all

lemma std_U_shift: "std_U h P (std_U h P m 0) k = std_U h P m (Suc k)"
  by (induction k) simp_all

lemma F_rounds_std:
  assumes hl: "\<And>k m. length (h k m) = 20"
  shows "F_rounds h P k (T, std_U h P m j) =
           Some (fold (\<lambda>i T. xor_bytes T (std_U h P m (j + i))) [0..<k] T, std_U h P m (j + k))"
proof (induction k arbitrary: T j)
  case 0
  then show ?case by simp
next
  case (Suc k)
  have l: "length (std_U h P m j) = 20" by (rule std_U_length [OF hl])
  have "F_rounds h P (Suc k) (T, std_U h P m j) =
          F_rounds h P k (xor_bytes T (std_U h P m j), std_U h P m (Suc j))"
    using l hl by (simp add: SHA_DIGEST_LENGTH_def)
  also have "\<dots> = Some (fold (\<lambda>i T. xor_bytes T (std_U h P m (Suc j + i))) [0..<k]
                          (xor_bytes T (std_U h P m j)), std_U h P m (Suc j + k))"
    by (rule Suc.IH)
  finally show ?case
    by (simp add: fold_upt_Suc_shift [of "\<lambda>i T. xor_bytes T (std_U h P m (j + i))"] del: upt_Suc)
qed

lemma PBKDF2_F_std:
  assumes hl: "\<And>k m. length (h k m) = 20"
    and "P \<noteq> []" and "S \<noteq> []" and "0 < c"
  shows "PBKDF2_F h (Some T) (Some P) (length P) (Some S) (length S) c i =
           Some (fold (\<lambda>k T. xor_bytes T (std_U h P (S @ htonl_bytes i) k)) [0..<Suc (nat c)] T)"
proof -
  have r: "F_rounds h P (nat c) (T, std_U h P (S @ htonl_bytes i) 0) =
        Some (fold (\<lambda>k T. xor_bytes T (std_U h P (S @ htonl_bytes i) (0 + k))) [0..<nat c] T,
              std_U h P (S @ htonl_bytes i) (0 + nat c))"
    by (rule F_rounds_std [OF hl])
  show ?thesis
    using assms(2-4) hl r by (simp add: PBKDF2_F_def SHA_DIGEST_LENGTH_def)
qed

lemma xor_bytes_length: "length T = 20 \<Longrightarrow> length U = 20 \<Longrightarrow> length (xor_bytes T U) = 20"
  by (simp add: xor_bytes_def)

lemma std_F_length:
  assumes hl: "\<And>k m. length (h k m) = 20"
  shows "length (std_F h P S c i) = 20"
proof -
  have "length (fold (\<lambda>k T. xor_bytes T (std_U h P m k)) ks T) = 20" if "length T = 20" for ks T m
    using that by (induction ks arbitrary: T) (simp_all add: xor_bytes_length std_U_length [OF hl])
  then show ?thesis by (simp add: std_F_def)
qed

lemma s32_id: "c < 2 ^ 31 \<Longrightarrow> s32 c = int c"
  by (simp add: s32_def u32_def)

lemma pbkdf2_std_one_block:
  assumes "0 < dkLen" and "dkLen \<le> 20"
  shows "pbkdf2_std h P S c dkLen = take dkLen (std_F h P S c 1)"
proof -
  have "(dkLen + 19) div 20 = 1" using assms by simp
  then show ?thesis by (simp add: pbkdf2_std_def)
qed

text \<open>
  Claim C3 says that \<^verbatim>\<open>PBKDF2\<close> computes the standard PBKDF2-HMAC-SHA1 key, each block
  being the XOR of exactly \<open>c\<close> HMAC rounds. For an output of at most one digest (the
  length every caller in this file asks for), the code returns the first bytes of the
  block function taken with \<open>c + 1\<close> rounds and block index 0, where the standard one
  (\<open>pbkdf2_std_one_block\<close>) takes \<open>c\<close> rounds and block index 1: the loop of
  \<^verbatim>\<open>PBKDF2_F\<close> XORs \<open>c\<close> values and the "final XOR" adds one more, and \<^verbatim>\<open>PBKDF2\<close>
  counts the blocks from 0.
\<close>

theorem PBKDF2_one_block_extra_round:
  assumes hl: "\<And>k m. length (h k m) = 20"
    and "P \<noteq> []" and "S \<noteq> []" and "0 < c" and "c < 2 ^ 31"
    and "0 < dkLen" and "dkLen \<le> 20"
  shows "PBKDF2 h (Some P) (length P) (Some S) (length S) c dkLen =
           Some (take dkLen (std_F h P S (c + 1) 0))"
proof -
  have l1: "u32 (u32 (dkLen div SHA_DIGEST_LENGTH) +
              (if dkLen mod SHA_DIGEST_LENGTH \<noteq> 0 then 1 else 0)) = 1"
    using assms(6,7) by (cases "dkLen = 20") (simp_all add: u32_def SHA_DIGEST_LENGTH_def)
  have c0: "u32 c \<noteq> 0" using assms(4,5) by (simp add: u32_def)
  have cpos: "0 < s32 c" and cn: "nat (s32 c) = c" using assms(4,5) by (simp_all add: s32_id)
  define T' where "T' = std_F h P S (c + 1) 0"
  have lT: "length T' = 20" unfolding T'_def by (rule std_F_length [OF hl])
  have F: "PBKDF2_F h (Some (replicate 20 0)) (Some P) (length P) (Some S) (length S) (s32 c) 0 = Some T'"
    using PBKDF2_F_std [OF hl assms(2,3) cpos, where T = "replicate 20 0" and i = 0]
    by (simp add: cn T'_def std_F_def del: upt_Suc)
  have blocks: "PBKDF2_blocks h (Some P) (length P) (Some S) (length S) (s32 c) [0]
                  (memset 0 SHA_DIGEST_LENGTH, memset 0 dkLen, dkLen) =
                Some (T', take dkLen T', 0)"
    using assms(6,7) lT by (simp add: F Let_def memcpy_def memset_def SHA_DIGEST_LENGTH_def)
  have upt1: "[0..<(1::nat)] = [0]" by simp
  have cond: "\<not> (Some P = None \<or> length P = 0 \<or> Some S = None \<or> length S = 0 \<or>
                  u32 c = 0 \<or> dkLen = 0)"
    using assms(2,3,6) c0 by simp
  show ?thesis
    unfolding PBKDF2_def Let_def l1 if_not_P [OF cond] upt1 blocks
    by (simp add: T'_def)
qed


lemma toy_hmac_length: "length (toy_hmac k m) = 20"
  by (simp add: toy_hmac_def)

lemma xor_replicate: "xor_bytes (replicate n a) (replicate n b) = replicate n (a XOR b)"
  by (induction n) (simp_all add: xor_bytes_def)

lemma upt2: "[0..<2] = [0, Suc 0]"
  by (simp add: upt_rec)

lemma toy_code_value: "std_F toy_hmac [1] [2] 2 0 = replicate 20 31"
  by (simp add: std_F_def upt2 toy_hmac_def htonl_bytes_def xor_replicate)

lemma toy_std_value: "pbkdf2_std toy_hmac [1] [2] 1 20 = replicate 20 8"
  by (simp add: pbkdf2_std_def std_F_def toy_hmac_def htonl_bytes_def xor_replicate)

text \<open>An instance, with the stand-in HMAC: the code's key and the standard key differ.\<close>

theorem PBKDF2_one_block_extra_round_witness:
  "PBKDF2 toy_hmac (Some [1]) 1 (Some [2]) 1 1 20 = Some (replicate 20 31) \<and>
   pbkdf2_std toy_hmac [1] [2] 1 20 = replicate 20 8"
proof -
  have "PBKDF2 toy_hmac (Some [1]) (length [1::byte]) (Some [2]) (length [2::byte]) 1 20 =
          Some (take 20 (std_F toy_hmac [1] [2] (1 + 1) 0))"
    by (rule PBKDF2_one_block_extra_round) (simp_all add: toy_hmac_length)
  moreover have "length [1::byte] = 1" "length [2::byte] = 1" "(1::nat) + 1 = 2"
    by simp_all
  ultimately have "PBKDF2 toy_hmac (Some [1]) 1 (Some [2]) 1 1 20 =
      Some (take 20 (std_F toy_hmac [1] [2] 2 0))"
    by metis
  then have "PBKDF2 toy_hmac (Some [1]) 1 (Some [2]) 1 1 20 = Some (replicate 20 31)"
    unfolding toy_code_value by simp
  then show ?thesis using toy_std_value by blast
qed

section \<open>Properties of the adder\<close>



















end
